theory Spec2Isabelle
  imports Main "HOL-Library.AList"
begin

section \<open>Python string primitives used by the tokenizer\<close>

text \<open>
  A Python \<^verbatim>\<open>str\<close> is modelled as a \<^typ>\<open>string\<close> whose characters are the code
  points below 256.  Among those, the characters that \<^verbatim>\<open>str.split()\<close>,
  \<^verbatim>\<open>str.rsplit()\<close> and \<^verbatim>\<open>str.strip()\<close> treat as whitespace are U+0009..U+000D,
  U+001C..U+001F, U+0020, U+0085 and U+00A0.
\<close>

definition is_space :: "char \<Rightarrow> bool" where
  "is_space c \<longleftrightarrow> c \<in> set [CHR 0x09, CHR 0x0A, CHR 0x0B, CHR 0x0C, CHR 0x0D,
                           CHR 0x1C, CHR 0x1D, CHR 0x1E, CHR 0x1F, CHR 0x20,
                           CHR 0x85, CHR 0xA0]"

text \<open>
  \<^verbatim>\<open>s.split(maxsplit=n)\<close> with no separator: skip whitespace; at the end of the string
  stop; once \<open>n\<close> splits are done the rest of the string (leading whitespace removed,
  trailing whitespace kept) is the last item; otherwise cut one word and go on.
\<close>

fun split_ws :: "nat \<Rightarrow> string \<Rightarrow> string list" where
  "split_ws n s =
     (let s' = dropWhile is_space s in
      if s' = [] then []
      else (case n of
              0 \<Rightarrow> [s']
            | Suc m \<Rightarrow> takeWhile (\<lambda>c. \<not> is_space c) s'
                       # split_ws m (dropWhile (\<lambda>c. \<not> is_space c) s')))"

text \<open>\<^verbatim>\<open>s.rsplit(maxsplit=n)\<close> is the same scan run from the right end.\<close>

definition rsplit_ws :: "nat \<Rightarrow> string \<Rightarrow> string list" where
  "rsplit_ws n s = rev (map rev (split_ws n (rev s)))"

text \<open>\<^verbatim>\<open>s.split(c)\<close> with an explicit one-character separator: never empty, keeps
  empty pieces.\<close>

fun split_on :: "char \<Rightarrow> string \<Rightarrow> string list" where
  "split_on c [] = [[]]"
| "split_on c (x # xs) =
     (if x = c then [] # split_on c xs
      else (case split_on c xs of
              [] \<Rightarrow> [[x]]
            | p # ps \<Rightarrow> (x # p) # ps))"

definition strip :: "string \<Rightarrow> string" where
  "strip s = rev (dropWhile is_space (rev (dropWhile is_space s)))"

section \<open>Errors\<close>

text \<open>
  The exceptions the engine raises or lets through.  \<open>ValueError\<close> is what the
  specification calls a ValidationError; it is raised explicitly (lines 31 and 51), by a
  failed tuple unpacking (lines 34 and 38) and by \<^verbatim>\<open>int()\<close> (line 55).  \<open>NotFound\<close>
  is the failure of the repository's \<^verbatim>\<open>get_task\<close>.  \<open>OverflowError\<close> is raised by
  \<^verbatim>\<open>timedelta(days=n)\<close> and by the addition of a timedelta to a datetime (lines 72, 191
  and 230).
\<close>

datatype error = ValueError | TypeError | KeyError | NotFound | OverflowError

section \<open>Command tokenizer (\<^verbatim>\<open>_tokenize_message\<close>, lines 25-42)\<close>

text \<open>
  The result dictionary is an association list in insertion order; \<^const>\<open>AList.update\<close>
  is Python's \<^verbatim>\<open>d[k] = v\<close> (replace in place, or append a new key).

  The loop over \<^verbatim>\<open>parts[:-1]\<close> followed by the assignment of \<^verbatim>\<open>parts[-1]\<close>:
  every part but the last must split, from the right, into exactly two items, else the
  tuple assignment of line 38 raises ValueError.
\<close>

fun walk_parts :: "(string \<times> string) list \<Rightarrow> string \<Rightarrow> string list
                     \<Rightarrow> error + (string \<times> string) list" where
  "walk_parts result key [] = Inl ValueError"
| "walk_parts result key [final] = Inr (AList.update key (strip final) result)"
| "walk_parts result key (part # rest) =
     (case rsplit_ws 1 part of
        [a, b] \<Rightarrow> walk_parts (AList.update key (strip a) result) (strip b) rest
      | _ \<Rightarrow> Inl ValueError)"

definition tokenize_message :: "string \<Rightarrow> error + (string \<times> string) list" where
  "tokenize_message message =
     (case split_ws 2 message of
        [_] \<Rightarrow> Inl ValueError
      | [_, s] \<Rightarrow> Inr [(''shortcut'', s)]
      | [_, s, message'] \<Rightarrow>
          (case walk_parts [(''shortcut'', s)] ''text'' (split_on CHR '':'' message') of
             Inl e \<Rightarrow> Inl e
           | Inr result \<Rightarrow>
               (case map_of result ''text'' of
                  None \<Rightarrow> Inl KeyError
                | Some t \<Rightarrow> if t = [] then Inr (AList.delete ''text'' result)
                            else Inr result))
      | _ \<Rightarrow> Inl ValueError)"

section \<open>Dates and times\<close>

text \<open>
  A naive \<^verbatim>\<open>datetime\<close> is the number of microseconds since the midnight that starts
  ordinal day 0 of the proleptic Gregorian calendar, so that the calendar day
  (\<^verbatim>\<open>.date()\<close>, \<^verbatim>\<open>to_date\<close>) is the quotient by the length of a day and
  \<^verbatim>\<open>+ timedelta(days=n)\<close> adds \<open>n\<close> whole days and keeps the time of day.
\<close>

type_synonym datetime = int

definition us_per_day :: int where
  "us_per_day = 86400000000"

definition to_date :: "datetime \<Rightarrow> int" where
  "to_date x = x div us_per_day"

text \<open>
  Python's datetimes run from 0001-01-01 (ordinal day 1) to 9999-12-31 (ordinal day
  3652059), and a timedelta holds at most 999999999 days.  \<open>shift_days\<close> is the
  plain sum; \<open>add_days\<close> is \<^verbatim>\<open>x + timedelta(days=n)\<close>, which raises OverflowError when
  the timedelta cannot be built or the sum leaves the range.
\<close>

definition max_ordinal :: int where
  "max_ordinal = 3652059"

definition in_range :: "datetime \<Rightarrow> bool" where
  "in_range x \<longleftrightarrow> 1 \<le> to_date x \<and> to_date x \<le> max_ordinal"

definition shift_days :: "datetime \<Rightarrow> int \<Rightarrow> datetime" where
  "shift_days x n = x + n * us_per_day"

definition add_days :: "datetime \<Rightarrow> int \<Rightarrow> error + datetime" where
  "add_days x n =
     (if 999999999 < \<bar>n\<bar> then Inl OverflowError
      else if in_range (shift_days x n) then Inr (shift_days x n)
      else Inl OverflowError)"

text \<open>The ordinal of a calendar day, as \<^verbatim>\<open>date(y, m, d).toordinal()\<close> computes it
  for a month from 1 to 12, and the datetime of a day at a given hour and minute; used
  to write concrete dates.\<close>

definition is_leap :: "int \<Rightarrow> bool" where
  "is_leap y \<longleftrightarrow> y mod 4 = 0 \<and> (0 < y mod 100 \<or> y mod 400 = 0)"

definition days_before_year :: "int \<Rightarrow> int" where
  "days_before_year y = (y - 1) * 365 + (y - 1) div 4 - (y - 1) div 100 + (y - 1) div 400"

definition days_before_month :: "int \<Rightarrow> nat \<Rightarrow> int" where
  "days_before_month y m =
     ([0, 0, 31, 59, 90, 120, 151, 181, 212, 243, 273, 304, 334] ! m)
     + (if 2 < m \<and> is_leap y then 1 else 0)"

definition ymd2ord :: "int \<Rightarrow> nat \<Rightarrow> int \<Rightarrow> int" where
  "ymd2ord y m d = days_before_year y + days_before_month y m + d"

definition datetime_at :: "int \<Rightarrow> nat \<Rightarrow> int \<Rightarrow> int \<Rightarrow> int \<Rightarrow> datetime" where
  "datetime_at y m d hh mm = ymd2ord y m d * us_per_day + (hh * 3600 + mm * 60) * 1000000"

section \<open>Values, tasks and the repository\<close>

text \<open>The values of a field mapping and of a task's attributes: \<^verbatim>\<open>None\<close>, a truth
  value, a string, an integer, a datetime, or a list.\<close>

datatype pyval = VNone | VBool bool | VStr string | VInt int | VDate datetime
  | VList "pyval list"

text \<open>
  Modelled from the spec: the class \<^verbatim>\<open>Task\<close> of \<^verbatim>\<open>base.py\<close> is not among the sources.
  Its fields and their types are those of the specification's data model (the field
  \<^verbatim>\<open>text\<close> is named \<open>task_text\<close> here); \<open>attrs\<close>
  holds any further attribute that \<^verbatim>\<open>update\<close> sets on the object.
\<close>

record Task =
  user :: string
  shortcut :: string
  task_text :: "string option"
  date :: datetime
  period :: int
  reschedule :: bool
  completions :: "datetime list"
  attrs :: "(string \<times> pyval) list"

text \<open>
  Modelled from the spec: the class \<^verbatim>\<open>STRDatabase\<close> of \<^verbatim>\<open>str_database.py\<close> is not among
  the sources.  Following the specification's repository interface it is keyed by user,
  then by shortcut: a list of the user names, each with that user's tasks.
  \<open>get_task\<close> fails when there is no such task, and \<open>update_task\<close> replaces the stored
  task matching (user, shortcut).  The source calls \<^verbatim>\<open>update_task\<close> with the user
  (line 105) and without (lines 192 and 231); the second form is modelled by passing the
  task's own \<open>user\<close>.
\<close>

type_synonym repo = "(string \<times> Task list) list"


definition get_users_tasks :: "repo \<Rightarrow> string \<Rightarrow> Task list" where
  "get_users_tasks db usr = (case map_of db usr of None \<Rightarrow> [] | Some ts \<Rightarrow> ts)"

definition get_task :: "repo \<Rightarrow> string \<Rightarrow> string \<Rightarrow> error + Task" where
  "get_task db usr s =
     (case find (\<lambda>t. shortcut t = s) (get_users_tasks db usr) of
        None \<Rightarrow> Inl NotFound
      | Some t \<Rightarrow> Inr t)"

definition replace_task :: "Task \<Rightarrow> Task list \<Rightarrow> Task list" where
  "replace_task t ts = map (\<lambda>x. if shortcut x = shortcut t then t else x) ts"

definition update_task :: "repo \<Rightarrow> string \<Rightarrow> Task \<Rightarrow> repo" where
  "update_task db usr t =
     map (\<lambda>(u, ts). if u = usr then (u, replace_task t ts) else (u, ts)) db"


section \<open>External collaborators\<close>


datatype parse_outcome = Parsed datetime | NoDate | Raised error

type_synonym date_parser = "pyval \<Rightarrow> parse_outcome"

definition dateparser_like :: "(string \<Rightarrow> datetime option) \<Rightarrow> date_parser" where
  "dateparser_like recognise v =
     (case v of
        VStr s \<Rightarrow> (case recognise s of None \<Rightarrow> NoDate | Some d \<Rightarrow> Parsed d)
      | _ \<Rightarrow> Raised TypeError)"

text \<open>\<open>passes_datetimes\<close> is a more forgiving parser: it hands a datetime back
  unchanged.\<close>

definition passes_datetimes :: "(string \<Rightarrow> datetime option) \<Rightarrow> date_parser" where
  "passes_datetimes recognise v =
     (case v of
        VDate d \<Rightarrow> Parsed d
      | _ \<Rightarrow> dateparser_like recognise v)"

text \<open>A recogniser that knows no date at all, and one that reads the single text
  \<^verbatim>\<open>2024-01-05\<close>.\<close>

definition recognise_nothing :: "string \<Rightarrow> datetime option" where
  "recognise_nothing s = None"

definition recognise_iso :: "string \<Rightarrow> datetime option" where
  "recognise_iso s = (if s = ''2024-01-05'' then Some (datetime_at 2024 1 5 0 0) else None)"

text \<open>
  \<^verbatim>\<open>int(s)\<close> on a string: surrounding whitespace is ignored, then an optional sign and
  decimal digits, where single underscores may separate digits.  \<open>None\<close> stands for
  the ValueError.  The whitespace that \<^verbatim>\<open>int\<close> ignores is U+0009..U+000D, U+0020,
  U+0085 and U+00A0: unlike \<^verbatim>\<open>str.strip\<close> it does not skip U+001C..U+001F.  (The
  limit on the number of digits of recent Python versions is not modelled.)
\<close>

definition is_int_space :: "char \<Rightarrow> bool" where
  "is_int_space c \<longleftrightarrow> c \<in> set [CHR 0x09, CHR 0x0A, CHR 0x0B, CHR 0x0C, CHR 0x0D, CHR 0x20,
                               CHR 0x85, CHR 0xA0]"

definition int_strip :: "string \<Rightarrow> string" where
  "int_strip s = rev (dropWhile is_int_space (rev (dropWhile is_int_space s)))"

definition is_digit :: "char \<Rightarrow> bool" where
  "is_digit c \<longleftrightarrow> c \<in> set ''0123456789''"

definition digit_val :: "char \<Rightarrow> int" where
  "digit_val c = int (of_char c) - 48"

fun digits_from :: "int \<Rightarrow> string \<Rightarrow> int option" where
  "digits_from acc [] = Some acc"
| "digits_from acc (c # cs) =
     (if is_digit c then digits_from (acc * 10 + digit_val c) cs
      else if c = CHR ''_'' \<and> cs \<noteq> [] \<and> is_digit (hd cs) then digits_from acc cs
      else None)"

definition unsigned_int :: "string \<Rightarrow> int option" where
  "unsigned_int s =
     (case s of
        [] \<Rightarrow> None
      | c # cs \<Rightarrow> if is_digit c then digits_from (digit_val c) cs else None)"

definition py_int :: "string \<Rightarrow> int option" where
  "py_int s =
     (case int_strip s of
        [] \<Rightarrow> None
      | c # cs \<Rightarrow>
          if c = CHR ''-'' then map_option uminus (unsigned_int cs)
          else if c = CHR ''+'' then unsigned_int cs
          else unsigned_int (c # cs))"

text \<open>\<^verbatim>\<open>int(v)\<close> on a value of a field mapping.\<close>

definition int_of_val :: "pyval \<Rightarrow> error + int" where
  "int_of_val v =
     (case v of
        VStr s \<Rightarrow> (case py_int s of None \<Rightarrow> Inl ValueError | Some n \<Rightarrow> Inr n)
      | VInt n \<Rightarrow> Inr n
      | _ \<Rightarrow> Inl TypeError)"

section \<open>Task field resolver (\<^verbatim>\<open>_parse_task\<close> and its helpers, lines 44-77)\<close>

definition DEFAULT_PERIOD :: int where
  "DEFAULT_PERIOD = 4"

definition TASK_PER_DAY_LIMIT :: nat where
  "TASK_PER_DAY_LIMIT = 3"

definition determine_suitable_period :: "string \<Rightarrow> int" where
  "determine_suitable_period usr = DEFAULT_PERIOD"

text \<open>
  The loop of \<^verbatim>\<open>_determine_suitable_date\<close> (lines 71-72).  \<open>tasks_dates\<close> is the list
  the \<^verbatim>\<open>Counter\<close> is built from, and \<^const>\<open>count_list\<close> is the counter's lookup (0
  for a day that does not occur).  The loop ends because a day that stops it from
  ending holds a task, and only finitely many tasks lie on or after any day.
\<close>

function find_date :: "int list \<Rightarrow> datetime \<Rightarrow> error + datetime" where
  "find_date tasks_dates task_date =
     (if TASK_PER_DAY_LIMIT \<le> count_list tasks_dates (to_date task_date)
      then (case add_days task_date 1 of
              Inl e \<Rightarrow> Inl e
            | Inr task_date' \<Rightarrow> find_date tasks_dates task_date')
      else Inr task_date)"
  by pat_completeness auto
termination
proof (relation "measure (\<lambda>(ds, x). length (filter (\<lambda>d. to_date x \<le> d) ds))", goal_cases)
  case 1
  show ?case by simp
next
  case (2 ds x x')
  from 2(2) have "x' = shift_days x 1"
    by (simp add: add_days_def split: if_splits)
  then have step: "to_date x' = to_date x + 1"
    by (simp add: to_date_def shift_days_def us_per_day_def)
  have less: "a \<in> set xs \<Longrightarrow>
      length (filter (\<lambda>d. a + 1 \<le> d) xs) < length (filter (\<lambda>d. a \<le> d) xs)"
    for a :: int and xs
  proof (induction xs)
    case Nil
    then show ?case by simp
  next
    case (Cons y ys)
    have mono: "length (filter (\<lambda>d. a + 1 \<le> d) ys) \<le> length (filter (\<lambda>d. a \<le> d) ys)"
      by (induction ys) auto
    show ?case
    proof (cases "a \<in> set ys")
      case True
      with Cons.IH show ?thesis by auto
    next
      case False
      with Cons.prems have "y = a" by simp
      with mono show ?thesis by simp
    qed
  qed
  from 2(1) have "count_list ds (to_date x) \<noteq> 0"
    by (simp add: TASK_PER_DAY_LIMIT_def)
  then have "to_date x \<in> set ds"
    by (simp add: count_list_0_iff)
  then show ?case
    using less [of "to_date x" ds] by (simp add: step)
qed

text \<open>The list of calendar days that line 67 counts.\<close>

definition tasks_dates :: "repo \<Rightarrow> string \<Rightarrow> int list" where
  "tasks_dates db usr = map (\<lambda>t. to_date (date t)) (get_users_tasks db usr)"

definition determine_suitable_date :: "repo \<Rightarrow> datetime \<Rightarrow> string \<Rightarrow> error + datetime" where
  "determine_suitable_date db now usr = find_date (tasks_dates db usr) now"

text \<open>
  \<^verbatim>\<open>_parse_task\<close>.  The bare \<^verbatim>\<open>except\<close> of line 50 turns whatever the parser raises
  into a ValueError; a parser that returns \<^verbatim>\<open>None\<close> raises nothing, and \<^verbatim>\<open>None\<close> is
  stored as the date.  The search for a date (line 53) is outside the \<^verbatim>\<open>try\<close>, and
  what it raises goes through.
\<close>

definition parse_task :: "date_parser \<Rightarrow> repo \<Rightarrow> datetime \<Rightarrow> string
                            \<Rightarrow> (string \<times> pyval) list \<Rightarrow> error + (string \<times> pyval) list" where
  "parse_task parse_date db now usr task =
     (case (case map_of task ''date'' of
              Some v \<Rightarrow>
                (case parse_date v of
                   Raised e \<Rightarrow> Inl ValueError
                 | Parsed d \<Rightarrow> Inr (AList.update ''date'' (VDate d) task)
                 | NoDate \<Rightarrow> Inr (AList.update ''date'' VNone task))
            | None \<Rightarrow>
                (case determine_suitable_date db now usr of
                   Inl e \<Rightarrow> Inl e
                 | Inr d \<Rightarrow> Inr (AList.update ''date'' (VDate d) task)))
      of
        Inl e \<Rightarrow> Inl e
      | Inr task' \<Rightarrow>
          (case map_of task' ''period'' of
             Some v \<Rightarrow>
               (case int_of_val v of
                  Inl e \<Rightarrow> Inl e
                | Inr n \<Rightarrow> Inr (AList.update ''period'' (VInt n) task'))
           | None \<Rightarrow>
               Inr (AList.update ''period'' (VInt (determine_suitable_period usr)) task')))"

text \<open>\<^verbatim>\<open>parse_message\<close>: the tokenizer's strings enter the resolver as they are.\<close>

definition parse_message :: "date_parser \<Rightarrow> repo \<Rightarrow> datetime \<Rightarrow> string \<Rightarrow> string
                               \<Rightarrow> error + (string \<times> pyval) list" where
  "parse_message parse_date db now usr message =
     (case tokenize_message message of
        Inl e \<Rightarrow> Inl e
      | Inr tokens \<Rightarrow> parse_task parse_date db now usr (map (\<lambda>(k, v). (k, VStr v)) tokens))"

section \<open>Catching up (\<^verbatim>\<open>_actualize_tasks\<close>, lines 218-231)\<close>

text \<open>The body of the \<^verbatim>\<open>while\<close> loop (lines 226-230): one step of catching up.\<close>

definition catch_up_step :: "datetime \<Rightarrow> Task \<Rightarrow> error + Task" where
  "catch_up_step today t =
     (if reschedule t then Inr (t\<lparr>date := today\<rparr>)
      else (case add_days (date t) (period t) of
              Inl e \<Rightarrow> Inl e
            | Inr d \<Rightarrow> Inr (t\<lparr>date := d\<rparr>)))"

text \<open>
  The \<^verbatim>\<open>while\<close> loop of lines 225-230 on one task.  It returns the task, or ends with
  the exception of line 230, or does not end at all (a period of 0 keeps an overdue
  task overdue); so it is a partial function, and \<open>None\<close> is the run that never
  returns.
\<close>

partial_function (option) catch_up :: "datetime \<Rightarrow> Task \<Rightarrow> (error + Task) option" where
  "catch_up today t =
     (if to_date (date t) < to_date today
      then (case catch_up_step today t of
              Inl e \<Rightarrow> Some (Inl e)
            | Inr t' \<Rightarrow> catch_up today t')
      else Some (Inr t))"

declare catch_up.simps [code]






section \<open>Command handlers \<^verbatim>\<open>update\<close> (lines 97-106) and \<^verbatim>\<open>complete\<close> (lines 176-192)\<close>

text \<open>
  The attributes of a task object as a dictionary (its \<^verbatim>\<open>__dict__\<close>), and the way
  back: a dictionary is a task of the data model when every field is there with a
  value of its type.
\<close>

definition task_dict :: "Task \<Rightarrow> (string \<times> pyval) list" where
  "task_dict t =
     [(''user'', VStr (user t)), (''shortcut'', VStr (shortcut t)),
      (''text'', (case task_text t of None \<Rightarrow> VNone | Some s \<Rightarrow> VStr s)),
      (''date'', VDate (date t)), (''period'', VInt (period t)),
      (''reschedule'', VBool (reschedule t)),
      (''completions'', VList (map VDate (completions t)))] @ attrs t"

definition declared_fields :: "string list" where
  "declared_fields =
     [''user'', ''shortcut'', ''text'', ''date'', ''period'', ''reschedule'', ''completions'']"

fun dates_of :: "pyval list \<Rightarrow> datetime list option" where
  "dates_of [] = Some []"
| "dates_of (VDate d # vs) = (case dates_of vs of None \<Rightarrow> None | Some ds \<Rightarrow> Some (d # ds))"
| "dates_of (_ # vs) = None"

fun text_of :: "pyval \<Rightarrow> string option option" where
  "text_of VNone = Some None"
| "text_of (VStr s) = Some (Some s)"
| "text_of _ = None"

definition task_of_dict :: "(string \<times> pyval) list \<Rightarrow> Task option" where
  "task_of_dict d =
     (case (map_of d ''user'', map_of d ''shortcut'', map_of d ''text'', map_of d ''date'',
            map_of d ''period'', map_of d ''reschedule'', map_of d ''completions'') of
        (Some (VStr u), Some (VStr s), Some tx, Some (VDate dt), Some (VInt p),
         Some (VBool r), Some (VList cs)) \<Rightarrow>
          (case (text_of tx, dates_of cs) of
             (Some tx', Some cs') \<Rightarrow>
               Some \<lparr>user = u, shortcut = s, task_text = tx', date = dt, period = p,
                     reschedule = r, completions = cs',
                     attrs = filter (\<lambda>(k, v). k \<notin> set declared_fields) d\<rparr>
           | _ \<Rightarrow> None)
      | _ \<Rightarrow> None)"

text \<open>\<^verbatim>\<open>d.update(other)\<close> on dictionaries.\<close>

fun dict_update :: "(string \<times> pyval) list \<Rightarrow> (string \<times> pyval) list \<Rightarrow> (string \<times> pyval) list" where
  "dict_update d [] = d"
| "dict_update d ((k, v) # kvs) = dict_update (AList.update k v d) kvs"

text \<open>
  What the handler \<^verbatim>\<open>update\<close> leaves behind: the repository with the task replaced,
  or, when the merged attributes are no task of the data model (a date that is
  \<^verbatim>\<open>None\<close>, a string for the reschedule flag), the user and the attributes of the object
  that line 105 writes to the repository.
\<close>

datatype stored = Stored repo | StoredUntyped string "(string \<times> pyval) list"

text \<open>The handlers return what they store, or the exception that ends the command and
  leaves the repository as it was.\<close>

definition update :: "date_parser \<Rightarrow> datetime \<Rightarrow> string \<Rightarrow> string \<Rightarrow> repo \<Rightarrow> error + stored" where
  "update parse_date now usr message db =
     (case parse_message parse_date db now usr message of
        Inl e \<Rightarrow> Inl e
      | Inr upd \<Rightarrow>
          (case map_of upd ''shortcut'' of
             Some (VStr s) \<Rightarrow>
               (case get_task db usr s of
                  Inl e \<Rightarrow> Inl e
                | Inr t \<Rightarrow>
                    (let d = dict_update (task_dict t) upd in
                     case task_of_dict d of
                       None \<Rightarrow> Inr (StoredUntyped usr d)
                     | Some t' \<Rightarrow> Inr (Stored (update_task db usr t'))))
           | _ \<Rightarrow> Inl KeyError))"

definition complete :: "date_parser \<Rightarrow> datetime \<Rightarrow> string \<Rightarrow> string \<Rightarrow> repo \<Rightarrow> error + repo" where
  "complete parse_date now usr message db =
     (case parse_message parse_date db now usr message of
        Inl e \<Rightarrow> Inl e
      | Inr task \<Rightarrow>
          (case (case map_of task ''date'' of
                   Some v \<Rightarrow> parse_date v
                 | None \<Rightarrow> Parsed now) of
             Raised e \<Rightarrow> Inl e
           | outcome \<Rightarrow>
               (case map_of task ''shortcut'' of
                  Some (VStr s) \<Rightarrow>
                    (case get_task db usr s of
                       Inl e \<Rightarrow> Inl e
                     | Inr t \<Rightarrow>
                         (case outcome of
                            Parsed d \<Rightarrow>
                              (case add_days d (period t) of
                                 Inl e \<Rightarrow> Inl e
                               | Inr d' \<Rightarrow>
                                   Inr (update_task db (user t)
                                          (t\<lparr>completions := completions t @ [d],
                                             date := d'\<rparr>)))
                          | _ \<Rightarrow> Inl TypeError))
                | _ \<Rightarrow> Inl KeyError)))"

section \<open>Concrete data for the examples\<close>

definition example_task :: Task where
  "example_task =
     \<lparr>user = ''ann'', shortcut = ''abc'', task_text = Some ''buy milk'',
      date = datetime_at 2024 1 1 0 0, period = 2, reschedule = False,
      completions = [], attrs = []\<rparr>"

text \<open>A task due in the future, with a period of a week.\<close>

definition stored_task :: Task where
  "stored_task = example_task\<lparr>date := datetime_at 2024 3 10 9 0, period := 7\<rparr>"

text \<open>A user with three tasks on 2024-01-01 and none on 2024-01-02.\<close>

definition busy_repo :: repo where
  "busy_repo =
     [(''ann'',
       [example_task,
        example_task\<lparr>shortcut := ''def'', date := datetime_at 2024 1 1 12 30\<rparr>,
        example_task\<lparr>shortcut := ''ghi'', date := datetime_at 2024 1 1 18 0\<rparr>])]"





section \<open>Properties of the tokenizer\<close>

lemmas string_simps = is_space_def rsplit_ws_def strip_def AList.delete_eq

lemma split_ws_all_space:
  "\<forall>c\<in>set w. is_space c \<Longrightarrow> split_ws n w = []"
proof -
  assume "\<forall>c\<in>set w. is_space c"
  then have "dropWhile is_space w = []" by simp
  then show ?thesis by simp
qed

lemma split_ws_word:
  assumes w: "\<forall>c\<in>set w. is_space c"
    and v: "v \<noteq> []" "\<forall>c\<in>set v. \<not> is_space c"
    and r: "rest = [] \<or> is_space (hd rest)"
  shows "split_ws (Suc m) (w @ v @ rest) = v # split_ws m rest"
proof -
  have d: "dropWhile is_space (w @ v @ rest) = v @ rest"
    using w v by (cases v) simp_all
  have t: "takeWhile (\<lambda>c. \<not> is_space c) (v @ rest) = v"
    using v r by (cases rest) simp_all
  have dd: "dropWhile (\<lambda>c. \<not> is_space c) (v @ rest) = rest"
    using v r by (cases rest) simp_all
  show ?thesis
    using v by (subst split_ws.simps) (simp add: d t dd del: split_ws.simps)
qed

lemma split_ws_last_word:
  assumes w: "\<forall>c\<in>set w. is_space c"
    and v: "v \<noteq> []" "\<forall>c\<in>set v. \<not> is_space c"
    and r: "\<forall>c\<in>set w'. is_space c"
  shows "split_ws (Suc m) (w @ v @ w') = [v]"
proof -
  have "w' = [] \<or> is_space (hd w')" using r by (cases w') simp_all
  then have "split_ws (Suc m) (w @ v @ w') = v # split_ws m w'"
    using w v by (rule split_ws_word[rotated 3])
  then show ?thesis using r by (simp add: split_ws_all_space del: split_ws.simps)
qed

text \<open>
  Claim C1, as stated: on input with the command verb already stripped, \<^verbatim>\<open>tokenize("abc")\<close>
  yields the mapping with the single key shortcut, \<^verbatim>\<open>tokenize("abc buy milk period:2")\<close>
  yields shortcut abc, text "buy milk" and period "2", and so on.  This fails: the
  tokenizer takes the first word of its input for the command verb and drops it, so
  a lone "abc" is a message without a shortcut, and in the second example the
  shortcut is "buy".
\<close>

theorem tokenize_verb_stripped_counterexample:
  "tokenize_message ''abc'' = Inl ValueError
   \<and> tokenize_message ''abc buy milk period:2''
       = Inr [(''shortcut'', ''buy''), (''text'', ''milk''), (''period'', ''2'')]"
  by (simp add: tokenize_message_def string_simps)

text \<open>
  Claim C1, amended: the tokenizer receives the message with the command verb as its
  first word.  Then \<^verbatim>\<open>tokenize("/add abc")\<close> is the mapping with the single key
  shortcut (no text key), \<^verbatim>\<open>tokenize("/add abc buy milk period:2")\<close> has shortcut abc,
  text "buy milk" and period "2", and the empty message fails with ValueError.
\<close>

theorem tokenize_examples_with_verb:
  "tokenize_message ''/add abc'' = Inr [(''shortcut'', ''abc'')]
   \<and> tokenize_message ''/add abc buy milk period:2''
       = Inr [(''shortcut'', ''abc''), (''text'', ''buy milk''), (''period'', ''2'')]
   \<and> tokenize_message [] = Inl ValueError"
  by (simp add: tokenize_message_def string_simps)

text \<open>
  The third example of the specification, attributes with no text before them, fails
  even with the verb in place: the part before the first colon is the single word
  \<^verbatim>\<open>period\<close>, its \<^verbatim>\<open>rsplit\<close> has one item, and the tuple assignment of line 38
  raises ValueError, so that the deletion of an empty text (lines 40-41) is never
  reached.
\<close>

lemma tokenize_attributes_without_text:
  "tokenize_message ''/add abc period:2 date:2024-01-01'' = Inl ValueError"
  by (simp add: tokenize_message_def string_simps)

text \<open>
  Claim C10: a message that consists of the verb and exactly one more
  whitespace-delimited token (with any whitespace before, between and after them)
  tokenizes to the mapping whose only key is shortcut, bound to that token; the
  token is not split at colons.
\<close>

theorem tokenize_single_token:
  assumes "\<forall>c\<in>set w1. is_space c"
    and "verb \<noteq> []" "\<forall>c\<in>set verb. \<not> is_space c"
    and "w2 \<noteq> []" "\<forall>c\<in>set w2. is_space c"
    and "tok \<noteq> []" "\<forall>c\<in>set tok. \<not> is_space c"
    and "\<forall>c\<in>set w3. is_space c"
  shows "tokenize_message (w1 @ verb @ w2 @ tok @ w3) = Inr [(''shortcut'', tok)]"
proof -
  have "is_space (hd (w2 @ tok @ w3))" using assms(4,5) by (cases w2) simp_all
  then have "split_ws (Suc (Suc 0)) (w1 @ verb @ (w2 @ tok @ w3))
           = verb # split_ws (Suc 0) (w2 @ tok @ w3)"
    using assms(1-3) by (intro split_ws_word) simp_all
  also have "split_ws (Suc 0) (w2 @ tok @ w3) = [tok]"
    using assms(5-8) by (intro split_ws_last_word) simp_all
  finally have "split_ws 2 (w1 @ verb @ w2 @ tok @ w3) = [verb, tok]"
    by (simp add: numeral_2_eq_2 del: split_ws.simps)
  then show ?thesis by (simp add: tokenize_message_def del: split_ws.simps)
qed

theorem tokenize_single_token_witness:
  "tokenize_message ''/get  a:b:c '' = Inr [(''shortcut'', ''a:b:c'')]"
  using tokenize_single_token [of "[]" "''/get''" "''  ''" "''a:b:c''" "'' ''"]
  by (simp add: is_space_def)


section \<open>Properties of catching up\<close>

lemmas date_simps = datetime_at_def ymd2ord_def days_before_year_def days_before_month_def
  is_leap_def us_per_day_def to_date_def shift_days_def add_days_def in_range_def
  max_ordinal_def

lemma to_date_shift_days: "to_date (shift_days x n) = to_date x + n"
  by (simp add: to_date_def shift_days_def us_per_day_def)

lemma shift_days_shift_days: "shift_days (shift_days x m) n = shift_days x (m + n)"
  by (simp add: shift_days_def algebra_simps)

lemma to_date_mono: "x \<le> y \<Longrightarrow> to_date x \<le> to_date y"
  by (simp add: to_date_def us_per_day_def zdiv_mono1)

lemma to_date_less_imp_less: "to_date x < to_date y \<Longrightarrow> x < y"
  using to_date_mono [of y x] by linarith

lemma in_range_shift_days:
  "in_range (shift_days x n) \<longleftrightarrow> 1 \<le> to_date x + n \<and> to_date x + n \<le> max_ordinal"
  by (simp add: in_range_def to_date_shift_days)

lemma add_days_positive:
  "0 < n \<Longrightarrow> add_days x n =
     (if n \<le> 999999999 \<and> in_range (shift_days x n) then Inr (shift_days x n)
      else Inl OverflowError)"
  by (simp add: add_days_def)

lemma catch_up_current:
  "\<not> to_date (date t) < to_date today \<Longrightarrow> catch_up today t = Some (Inr t)"
  by (subst catch_up.simps) simp

lemma catch_up_overdue:
  "to_date (date t) < to_date today \<Longrightarrow>
     catch_up today t = (case catch_up_step today t of
                           Inl e \<Rightarrow> Some (Inl e)
                         | Inr t' \<Rightarrow> catch_up today t')"
  by (subst catch_up.simps) simp

lemma catch_up_reschedule:
  assumes "to_date (date t) < to_date today" "reschedule t"
  shows "catch_up today t = Some (Inr (t\<lparr>date := today\<rparr>))"
  using assms by (simp add: catch_up_overdue catch_up_step_def catch_up_current)

lemma catch_up_walk:
  assumes "\<not> reschedule t" and "0 < period t"
    and "\<forall>i<j. to_date (date t) + int i * period t < to_date today"
    and "to_date today \<le> to_date (date t) + int j * period t"
  shows "catch_up today t =
           Some (if j = 0 \<or> (period t \<le> 999999999
                               \<and> in_range (shift_days (date t) (period t))
                               \<and> in_range (shift_days (date t) (int j * period t)))
                 then Inr (t\<lparr>date := shift_days (date t) (int j * period t)\<rparr>)
                 else Inl OverflowError)"
  using assms
proof (induction j arbitrary: t)
  case 0
  then show ?case by (simp add: catch_up_current shift_days_def)
next
  case (Suc j)
  let ?P = "period t" and ?D = "to_date (date t)"
  let ?t1 = "t\<lparr>date := shift_days (date t) ?P\<rparr>"
  from Suc.prems(3) have od: "?D < to_date today" by force
  show ?case
  proof (cases "?P \<le> 999999999 \<and> in_range (shift_days (date t) ?P)")
    case False
    then have "catch_up_step today t = Inl OverflowError"
      using Suc.prems(1,2) by (auto simp: catch_up_step_def add_days_positive)
    with od False show ?thesis by (auto simp: catch_up_overdue)
  next
    case True
    then have st: "catch_up_step today t = Inr ?t1"
      using Suc.prems(1,2) by (simp add: catch_up_step_def add_days_positive)
    have a: "\<not> reschedule ?t1" "0 < period ?t1" using Suc.prems(1,2) by simp_all
    have b: "\<forall>i<j. to_date (date ?t1) + int i * period ?t1 < to_date today"
    proof (intro allI impI)
      fix i assume "i < j"
      then have "?D + int (Suc i) * ?P < to_date today"
        using Suc.prems(3) by (meson Suc_mono)
      then show "to_date (date ?t1) + int i * period ?t1 < to_date today"
        by (simp add: to_date_shift_days algebra_simps)
    qed
    have c: "to_date today \<le> to_date (date ?t1) + int j * period ?t1"
      using Suc.prems(4) by (simp add: to_date_shift_days algebra_simps)
    have same: "shift_days (date ?t1) (int j * period ?t1)
              = shift_days (date t) (int (Suc j) * ?P)"
      by (simp add: shift_days_shift_days algebra_simps)
    have two: "in_range (shift_days (date ?t1) (period ?t1))"
      if "0 < j" "in_range (shift_days (date t) (int (Suc j) * ?P))"
    proof -
      have "?P * 1 \<le> ?P * int j"
        using that(1) Suc.prems(2) by (intro mult_left_mono) simp_all
      then have "?D + 2 * ?P \<le> ?D + int (Suc j) * ?P"
        by (simp add: algebra_simps)
      moreover have "?D + int (Suc j) * ?P \<le> max_ordinal"
        using that(2) by (simp only: in_range_shift_days)
      moreover have "1 \<le> ?D + ?P"
        using True by (simp only: in_range_shift_days)
      ultimately have "1 \<le> ?D + 2 * ?P \<and> ?D + 2 * ?P \<le> max_ordinal"
        using Suc.prems(2) by linarith
      then show ?thesis
        by (simp add: in_range_shift_days to_date_shift_days)
    qed
    have "catch_up today t = catch_up today ?t1"
      using od st by (simp add: catch_up_overdue)
    also have "\<dots> = Some (if j = 0 \<or> (period ?t1 \<le> 999999999
                               \<and> in_range (shift_days (date ?t1) (period ?t1))
                               \<and> in_range (shift_days (date ?t1) (int j * period ?t1)))
                 then Inr (?t1\<lparr>date := shift_days (date ?t1) (int j * period ?t1)\<rparr>)
                 else Inl OverflowError)"
      using a b c by (rule Suc.IH)
    also have "\<dots> = Some (if in_range (shift_days (date t) (int (Suc j) * ?P))
                 then Inr (t\<lparr>date := shift_days (date t) (int (Suc j) * ?P)\<rparr>)
                 else Inl OverflowError)"
    proof (cases "j = 0")
      case True
      with \<open>?P \<le> 999999999 \<and> in_range (shift_days (date t) ?P)\<close> show ?thesis
        by (simp add: shift_days_def)
    next
      case False
      then have "0 < j" by simp
      from two [OF this] True show ?thesis
        unfolding same by auto
    qed
    finally show ?thesis using True by simp
  qed
qed


lemma catch_up_terminates:
  assumes "reschedule t \<or> 0 < period t"
  shows "\<exists>r. catch_up today t = Some r"
  using assms
proof (induction "nat (to_date today - to_date (date t))" arbitrary: t rule: less_induct)
  case less
  show ?case
  proof (cases "to_date (date t) < to_date today")
    case False
    then show ?thesis by (simp add: catch_up_current)
  next
    case od: True
    show ?thesis
    proof (cases "catch_up_step today t")
      case (Inl e)
      with od show ?thesis by (simp add: catch_up_overdue)
    next
      case (Inr t1)
      show ?thesis
      proof (cases "reschedule t")
        case True
        with od show ?thesis by (simp add: catch_up_reschedule)
      next
        case False
        with less.prems have pos: "0 < period t" by simp
        from Inr False have t1: "t1 = t\<lparr>date := shift_days (date t) (period t)\<rparr>"
          by (auto simp: catch_up_step_def add_days_def split: if_splits)
        have "nat (to_date today - to_date (date t1)) < nat (to_date today - to_date (date t))"
          using od pos by (simp add: t1 to_date_shift_days)
        moreover have "reschedule t1 \<or> 0 < period t1"
          using pos by (simp add: t1)
        ultimately have "\<exists>r. catch_up today t1 = Some r"
          by (rule less.hyps)
        then show ?thesis using od Inr by (simp add: catch_up_overdue)
      qed
    qed
  qed
qed

lemma catch_up_step_result:
  assumes "catch_up_step today t = Inr t1"
  shows "\<exists>d. t1 = t\<lparr>date := d\<rparr>"
  using assms by (auto simp: catch_up_step_def split: if_splits sum.splits)

lemma catch_up_step_error:
  assumes "catch_up_step today t = Inl e"
  shows "e = OverflowError"
  using assms by (auto simp: catch_up_step_def add_days_def split: if_splits sum.splits)

lemma catch_up_result:
  assumes "catch_up today t = Some r"
  shows "case r of
           Inl e \<Rightarrow> e = OverflowError
         | Inr t' \<Rightarrow> to_date today \<le> to_date (date t') \<and> (\<exists>d. t' = t\<lparr>date := d\<rparr>)"
  using assms
proof (induction today t r rule: catch_up.raw_induct [rotated, consumes 1])
  case (1 cu today t r)
  show ?case
  proof (cases "to_date (date t) < to_date today")
    case False
    with 1(2) have r: "r = Inr t" by simp
    have "\<exists>d. t = t\<lparr>date := d\<rparr>" by (rule exI [of _ "date t"]) simp
    with False r show ?thesis by simp
  next
    case True
    show ?thesis
    proof (cases "catch_up_step today t")
      case (Inl e)
      with True 1(2) have "r = Inl e" by simp
      with Inl show ?thesis by (simp add: catch_up_step_error)
    next
      case (Inr t1)
      with True 1(2) have "cu today t1 = Some r" by simp
      from 1(1) [OF this] have ih: "case r of
           Inl e \<Rightarrow> e = OverflowError
         | Inr t' \<Rightarrow> to_date today \<le> to_date (date t') \<and> (\<exists>d. t' = t1\<lparr>date := d\<rparr>)" .
      from Inr obtain d1 where "t1 = t\<lparr>date := d1\<rparr>"
        using catch_up_step_result by blast
      with ih show ?thesis by (cases r) auto
    qed
  qed
qed

lemma catch_up_returns:
  assumes "reschedule t \<or> (0 < period t \<and> period t \<le> 999999999 \<and> 1 \<le> to_date (date t)
                             \<and> to_date today + period t \<le> max_ordinal + 1)"
  shows "\<exists>t'. catch_up today t = Some (Inr t')"
  using assms
proof (induction "nat (to_date today - to_date (date t))" arbitrary: t rule: less_induct)
  case less
  show ?case
  proof (cases "to_date (date t) < to_date today")
    case False
    then show ?thesis by (simp add: catch_up_current)
  next
    case od: True
    show ?thesis
    proof (cases "reschedule t")
      case True
      with od show ?thesis by (simp add: catch_up_reschedule)
    next
      case False
      with less.prems have p: "0 < period t" "period t \<le> 999999999" "1 \<le> to_date (date t)"
        "to_date today + period t \<le> max_ordinal + 1" by simp_all
      let ?t1 = "t\<lparr>date := shift_days (date t) (period t)\<rparr>"
      have "in_range (shift_days (date t) (period t))"
        using od p by (simp add: in_range_shift_days)
      then have st: "catch_up_step today t = Inr ?t1"
        using False p by (simp add: catch_up_step_def add_days_positive)
      have "nat (to_date today - to_date (date ?t1)) < nat (to_date today - to_date (date t))"
        using od p by (simp add: to_date_shift_days)
      moreover have "reschedule ?t1 \<or> (0 < period ?t1 \<and> period ?t1 \<le> 999999999
                        \<and> 1 \<le> to_date (date ?t1)
                        \<and> to_date today + period ?t1 \<le> max_ordinal + 1)"
        using p by (simp add: to_date_shift_days)
      ultimately have "\<exists>t'. catch_up today ?t1 = Some (Inr t')"
        by (rule less.hyps)
      then show ?thesis using od st by (simp add: catch_up_overdue)
    qed
  qed
qed


text \<open>
  Claim C2, as stated: with date \<open>D\<close>, period \<open>P\<close>, no reschedule flag and
  \<open>now = D + k * P + r\<close> where \<open>0 \<le> r < P\<close> and \<open>1 \<le> k\<close>, catching up yields
  \<open>D + k * P\<close>.  This fails for \<open>D\<close> = 2024-01-01 00:00, \<open>P = 2\<close>, \<open>k = 1\<close> and \<open>r\<close> one
  day: \<open>D + k * P\<close> is 2024-01-03, still before the day of \<open>now\<close> (2024-01-04), and the
  loop goes on to \<open>D + 2 * P\<close>.
\<close>

theorem catch_up_whole_periods_counterexample:
  "catch_up (shift_days (date example_task) (1 * period example_task) + 1 * us_per_day)
      example_task
     = Some (Inr (example_task\<lparr>date := shift_days (date example_task)
                                              (2 * period example_task)\<rparr>))
   \<and> shift_days (date example_task) (2 * period example_task)
       \<noteq> shift_days (date example_task) (1 * period example_task)"
  by (simp add: catch_up.simps catch_up_step_def example_task_def date_simps)

text \<open>
  Claim C2, amended: under the same assumptions the loop walks to \<open>D + j * P\<close> for the
  smallest \<open>j\<close> such that the calendar day of \<open>D + j * P\<close> is not before the calendar
  day of \<open>now\<close>; this \<open>j\<close> is \<open>k\<close> when \<open>D + k * P\<close> and \<open>now\<close> fall on the same calendar
  day (in particular when \<open>r = 0\<close>), and \<open>k + 1\<close> otherwise.  The resulting date is
  \<open>D + j * P\<close>, unless the walk leaves the range of Python's datetimes (the period is
  above 999999999 days, or \<open>D + P\<close> or \<open>D + j * P\<close> is outside the range), in which
  case line 230 raises OverflowError.
\<close>

theorem catch_up_whole_periods:
  assumes "\<not> reschedule t" and "0 < period t" and "1 \<le> k"
    and "0 \<le> r" and "r < period t * us_per_day"
    and "now = shift_days (date t) (int k * period t) + r"
  shows "\<exists>j. catch_up now t =
               Some (if period t \<le> 999999999
                        \<and> in_range (shift_days (date t) (period t))
                        \<and> in_range (shift_days (date t) (int j * period t))
                     then Inr (t\<lparr>date := shift_days (date t) (int j * period t)\<rparr>)
                     else Inl OverflowError)
           \<and> j = (if to_date (shift_days (date t) (int k * period t)) = to_date now
                  then k else k + 1)
           \<and> to_date now \<le> to_date (shift_days (date t) (int j * period t))
           \<and> (\<forall>i<j. to_date (shift_days (date t) (int i * period t)) < to_date now)"
proof -
  let ?D = "to_date (date t)" and ?P = "period t"
  have lo: "?D + int k * ?P \<le> to_date now"
    using assms(4,6) to_date_mono [of "shift_days (date t) (int k * ?P)" now]
    by (simp add: to_date_shift_days)
  have "now \<le> shift_days (date t) (int (k + 1) * ?P)"
    using assms(5,6) by (simp add: shift_days_def algebra_simps)
  then have hi: "to_date now \<le> ?D + int (k + 1) * ?P"
    using to_date_mono [of now "shift_days (date t) (int (k + 1) * ?P)"]
    by (simp add: to_date_shift_days)
  have below: "?D + int i * ?P < ?D + int k * ?P" if "i < k" for i
    using that assms(2) by simp
  define j where "j = (if ?D + int k * ?P = to_date now then k else k + 1)"
  have j_pos: "j \<noteq> 0" using assms(3) by (simp add: j_def)
  have before: "\<forall>i<j. ?D + int i * ?P < to_date now"
  proof (intro allI impI)
    fix i assume ij: "i < j"
    show "?D + int i * ?P < to_date now"
    proof (cases "?D + int k * ?P = to_date now")
      case True
      with ij have "i < k" by (simp add: j_def)
      from below [OF this] True show ?thesis by simp
    next
      case False
      with lo have strict: "?D + int k * ?P < to_date now" by simp
      from ij False have "i \<le> k" by (simp add: j_def)
      then have "i < k \<or> i = k" by auto
      then show ?thesis using below strict by force
    qed
  qed
  have reach: "to_date now \<le> ?D + int j * ?P"
    using hi by (simp add: j_def)
  have "catch_up now t =
           Some (if j = 0 \<or> (period t \<le> 999999999
                               \<and> in_range (shift_days (date t) (period t))
                               \<and> in_range (shift_days (date t) (int j * period t)))
                 then Inr (t\<lparr>date := shift_days (date t) (int j * period t)\<rparr>)
                 else Inl OverflowError)"
    using assms(1,2) before reach by (rule catch_up_walk)
  with j_pos have "catch_up now t =
               Some (if period t \<le> 999999999
                        \<and> in_range (shift_days (date t) (period t))
                        \<and> in_range (shift_days (date t) (int j * period t))
                     then Inr (t\<lparr>date := shift_days (date t) (int j * period t)\<rparr>)
                     else Inl OverflowError)"
    by simp
  then show ?thesis
    using before reach by (intro exI [of _ j]) (simp add: to_date_shift_days j_def)
qed

theorem catch_up_whole_periods_witness:
  "catch_up (datetime_at 2024 1 4 0 0) example_task
     = Some (Inr (example_task\<lparr>date := datetime_at 2024 1 5 0 0\<rparr>))"
  using catch_up_whole_periods [of example_task 1 "us_per_day" "datetime_at 2024 1 4 0 0"]
  by (simp add: example_task_def date_simps)

text \<open>
  Claim C8, as stated: for every task with a positive period the catch-up loop
  terminates, the date reaching or passing today's calendar date.  This fails for a
  task dated 2024-01-01 with period 3000000 on 2024-01-04: the first addition passes
  9999-12-31, line 230 raises OverflowError, and the date never reaches today.
\<close>

theorem catch_up_overflow_counterexample:
  "0 < period (example_task\<lparr>period := 3000000\<rparr>)
   \<and> catch_up (datetime_at 2024 1 4 0 0) (example_task\<lparr>period := 3000000\<rparr>)
       = Some (Inl OverflowError)"
  by (simp add: catch_up.simps catch_up_step_def example_task_def date_simps)

text \<open>
  Claim C8, amended: for every task with a positive period the catch-up loop
  terminates: it ends either with the task, whose calendar date is then not before
  today's, or with the OverflowError of line 230.  Each iteration that does not raise
  strictly advances the date and keeps the period.  The loop ends with the task
  whenever the period is at most 999999999 days, the task's date is a datetime of
  Python's range, and today's ordinal day plus the period is at most one past the
  last day (9999-12-31).
\<close>

theorem catch_up_terminates_positive_period:
  assumes "0 < period t"
  shows "(\<exists>r. catch_up today t = Some r
             \<and> (case r of
                  Inl e \<Rightarrow> e = OverflowError
                | Inr t' \<Rightarrow> to_date today \<le> to_date (date t')))
       \<and> (\<forall>t'. to_date (date t) < to_date today \<and> catch_up_step today t = Inr t'
              \<longrightarrow> date t < date t' \<and> period t' = period t)
       \<and> (period t \<le> 999999999 \<and> in_range (date t)
            \<and> to_date today + period t \<le> max_ordinal + 1
          \<longrightarrow> (\<exists>t'. catch_up today t = Some (Inr t')))"
proof (intro conjI allI impI)
  obtain r where r: "catch_up today t = Some r"
    using assms catch_up_terminates [of t today] by auto
  from catch_up_result [OF this]
  have "case r of Inl e \<Rightarrow> e = OverflowError | Inr t' \<Rightarrow> to_date today \<le> to_date (date t')"
    by (cases r) auto
  with r show "\<exists>r. catch_up today t = Some r
             \<and> (case r of
                  Inl e \<Rightarrow> e = OverflowError
                | Inr t' \<Rightarrow> to_date today \<le> to_date (date t'))"
    by blast
next
  fix t'
  assume a: "to_date (date t) < to_date today \<and> catch_up_step today t = Inr t'"
  then have "date t < today" by (simp add: to_date_less_imp_less)
  with a assms show "date t < date t'"
    by (auto simp: catch_up_step_def add_days_def shift_days_def us_per_day_def
        split: if_splits)
  from a show "period t' = period t"
    by (auto simp: catch_up_step_def split: if_splits sum.splits)
next
  assume "period t \<le> 999999999 \<and> in_range (date t)
            \<and> to_date today + period t \<le> max_ordinal + 1"
  with assms show "\<exists>t'. catch_up today t = Some (Inr t')"
    by (intro catch_up_returns) (simp add: in_range_def)
qed

theorem catch_up_terminates_positive_period_witness:
  "\<exists>t'. catch_up (datetime_at 2024 2 1 7 30) example_task = Some (Inr t')
        \<and> to_date (datetime_at 2024 2 1 7 30) \<le> to_date (date t')"
proof -
  have pos: "0 < period example_task" by (simp add: example_task_def)
  have fits: "period example_task \<le> 999999999 \<and> in_range (date example_task)
        \<and> to_date (datetime_at 2024 2 1 7 30) + period example_task \<le> max_ordinal + 1"
    by (simp add: example_task_def date_simps)
  from catch_up_terminates_positive_period [OF pos, of "datetime_at 2024 2 1 7 30"] fits
  obtain r t' where "catch_up (datetime_at 2024 2 1 7 30) example_task = Some r"
    and "case r of Inl e \<Rightarrow> e = OverflowError
         | Inr t' \<Rightarrow> to_date (datetime_at 2024 2 1 7 30) \<le> to_date (date t')"
    and "catch_up (datetime_at 2024 2 1 7 30) example_task = Some (Inr t')"
    by blast
  then show ?thesis by auto
qed

section \<open>Properties of the resolver\<close>







lemmas resolver_simps = parse_message_def parse_task_def tokenize_message_def string_simps
  int_of_val_def py_int_def int_strip_def is_int_space_def unsigned_int_def is_digit_def
  digit_val_def
  determine_suitable_period_def DEFAULT_PERIOD_def determine_suitable_date_def
  tasks_dates_def get_users_tasks_def TASK_PER_DAY_LIMIT_def
  dateparser_like_def recognise_nothing_def recognise_iso_def passes_datetimes_def

text \<open>
  Claim C6, as stated: after resolution the period is a positive integer, 4 when absent
  and a positive integer when present.  This fails: \<^verbatim>\<open>int()\<close> accepts any integer
  literal and nothing checks its sign, so \<^verbatim>\<open>period:0\<close> resolves to 0.
\<close>

theorem parse_period_not_positive_counterexample:
  "parse_message (dateparser_like recognise_nothing) [] (datetime_at 2024 1 1 8 0) ''ann''
      ''/add abc buy milk period:0''
    = Inr [(''shortcut'', VStr ''abc''), (''text'', VStr ''buy milk''), (''period'', VInt 0),
           (''date'', VDate (datetime_at 2024 1 1 8 0))]"
  by (simp add: resolver_simps)

text \<open>
  Claim C6, amended: whenever resolution succeeds, the period is an integer: the
  default 4 when the input has no period, and otherwise the value \<^verbatim>\<open>int()\<close> gives
  for the input's period, whatever its sign.
\<close>

theorem parse_task_period:
  assumes "parse_task parse_date db now usr task = Inr res"
  shows "(map_of task ''period'' = None \<longrightarrow> map_of res ''period'' = Some (VInt 4))
       \<and> (\<forall>v. map_of task ''period'' = Some v \<longrightarrow>
              (\<exists>n. int_of_val v = Inr n \<and> map_of res ''period'' = Some (VInt n)))"
  using assms
  by (auto simp: parse_task_def update_conv' determine_suitable_period_def DEFAULT_PERIOD_def
      split: option.splits sum.splits parse_outcome.splits)

theorem parse_task_period_witness:
  "parse_task (dateparser_like recognise_nothing) [] (datetime_at 2024 1 1 8 0) ''ann''
      [(''shortcut'', VStr ''abc''), (''period'', VStr '' -3'')]
    = Inr [(''shortcut'', VStr ''abc''), (''period'', VInt (- 3)),
           (''date'', VDate (datetime_at 2024 1 1 8 0))]
   \<and> int_of_val (VStr '' -3'') = Inr (- 3)
   \<and> map_of [(''shortcut'', VStr ''abc''), (''period'', VInt (- 3)),
             (''date'', VDate (datetime_at 2024 1 1 8 0))] ''period'' = Some (VInt (- 3))"
proof -
  have run: "parse_task (dateparser_like recognise_nothing) [] (datetime_at 2024 1 1 8 0) ''ann''
      [(''shortcut'', VStr ''abc''), (''period'', VStr '' -3'')]
    = Inr [(''shortcut'', VStr ''abc''), (''period'', VInt (- 3)),
           (''date'', VDate (datetime_at 2024 1 1 8 0))]"
    by (simp add: resolver_simps)
  from parse_task_period [OF run] run show ?thesis by simp
qed

text \<open>When the parser raises, resolution does fail with ValueError.\<close>

lemma parse_task_parser_raises:
  assumes "map_of task ''date'' = Some v" and "parse_date v = Raised e"
  shows "parse_task parse_date db now usr task = Inl ValueError"
  using assms by (simp add: parse_task_def)

text \<open>
  Claim C5: when the date parser fails to parse the date text, resolution fails with
  a ValueError.  The code does not do this for a parser that, like
  \<^verbatim>\<open>dateparser.parse\<close>, reports an unparseable text by returning \<^verbatim>\<open>None\<close>: nothing is
  raised inside the \<^verbatim>\<open>try\<close>, resolution succeeds, and the date of the mapping is
  \<^verbatim>\<open>None\<close>.
\<close>

theorem parse_unparsed_date_is_none:
  "parse_message (dateparser_like recognise_nothing) [] (datetime_at 2024 1 1 8 0) ''ann''
      ''/add abc buy milk date:qwertyuiop''
    = Inr [(''shortcut'', VStr ''abc''), (''text'', VStr ''buy milk''), (''date'', VNone),
           (''period'', VInt 4)]"
  by (simp add: resolver_simps)

section \<open>Properties of the sweep\<close>

















section \<open>Properties of the handlers\<close>

lemmas handler_simps = update_def complete_def get_task_def update_task_def replace_task_def
  task_dict_def task_of_dict_def declared_fields_def

text \<open>
  Claim C4: an update changes only the fields supplied in the message; date and
  period keep their values when the message has none.  The code does not do this:
  \<^verbatim>\<open>update\<close> runs the message through the resolver, which always fills in a date
  and a period, and merges them into the stored task.  Here a task due on 2024-03-10
  with period 7 is given a new text on 2024-01-01, and comes back due on 2024-01-01
  with period 4.
\<close>

theorem update_resets_date_and_period:
  "update (dateparser_like recognise_nothing) (datetime_at 2024 1 1 8 0) ''ann''
      ''/update abc call mom'' [(''ann'', [stored_task])]
    = Inr (Stored [(''ann'', [stored_task\<lparr>task_text := Some ''call mom'',
                                 date := datetime_at 2024 1 1 8 0, period := 4\<rparr>])])
   \<and> date stored_task = datetime_at 2024 3 10 9 0 \<and> period stored_task = 7"
  by (simp add: handler_simps resolver_simps stored_task_def example_task_def)

text \<open>
  The merge stores whatever the resolver hands it: with a date that the parser did not
  recognise, the object written back has the date \<^verbatim>\<open>None\<close>.
\<close>

lemma update_stores_unparsed_date:
  "update (dateparser_like recognise_nothing) (datetime_at 2024 1 1 8 0) ''ann''
      ''/update abc call mom date:qwertyuiop'' [(''ann'', [stored_task])]
    = Inr (StoredUntyped ''ann''
            [(''user'', VStr ''ann''), (''shortcut'', VStr ''abc''),
             (''text'', VStr ''call mom''), (''date'', VNone), (''period'', VInt 4),
             (''reschedule'', VBool False), (''completions'', VList [])])"
  by (simp add: handler_simps resolver_simps stored_task_def example_task_def)

text \<open>
  Claim C9: \<^verbatim>\<open>complete\<close> takes the parsed date of the message, or \<open>now\<close> when the
  message has none, appends it to the completions and sets the date one period later.
  The code does not do this: the mapping it tests for a date comes from the resolver
  and always has one, already resolved, so the branch for \<open>now\<close> is never taken and
  the parser is called on a datetime.  With a parser that rejects anything but a
  string the command ends in a TypeError and records nothing, with or without a date
  in the message; with a parser that hands datetimes back, the completion recorded for
  a message without date is the resolver's suitable date (here the next day, because
  today holds three tasks), not \<open>now\<close>.
\<close>

theorem complete_reparses_resolved_date:
  "complete (dateparser_like recognise_iso) (datetime_at 2024 1 1 8 0) ''ann''
      ''/complete abc'' [(''ann'', [stored_task])] = Inl TypeError
   \<and> complete (dateparser_like recognise_iso) (datetime_at 2024 1 1 8 0) ''ann''
      ''/complete abc done date:2024-01-05'' [(''ann'', [stored_task])] = Inl TypeError
   \<and> complete (passes_datetimes recognise_iso) (datetime_at 2024 1 1 8 0) ''ann''
      ''/complete abc'' busy_repo
     = Inr (update_task busy_repo ''ann''
             (example_task\<lparr>completions := [datetime_at 2024 1 2 8 0],
                           date := datetime_at 2024 1 4 8 0\<rparr>))"
  by (simp add: handler_simps resolver_simps stored_task_def example_task_def busy_repo_def
      date_simps)


end
